theory Spec2Isabelle
  imports Main "HOL-Library.AList"
begin

section \<open>The security-headers callback (internal/rule/callback/add-security-headers.go)\<close>

subsection \<open>Data\<close>

text \<open>
  \<^verbatim>\<open>cfg.Data()\<close> returns a Go \<^verbatim>\<open>interface{}\<close>. The constructor of a value is its dynamic
  type, which is all the two type assertions of the constructor function look at:
  \<^verbatim>\<open>[]interface{}\<close> is \<open>CfgList\<close>, \<^verbatim>\<open>[]string\<close> is \<open>CfgStrings\<close>, and a nil slice of either type
  is the empty list (its length is 0 and ranging over it runs no iteration). \<open>CfgOther\<close>
  is a value of any further dynamic type, with the type's name, such as \<^verbatim>\<open>[][]string\<close>.
\<close>

datatype cfg_value =
    CfgNil
  | CfgBool bool
  | CfgNumber int
  | CfgString string
  | CfgStrings "string list"
  | CfgList "cfg_value list"
  | CfgMap "(string \<times> cfg_value) list"
  | CfgOther string

text \<open>
  \<^verbatim>\<open>http.Header\<close> is \<^verbatim>\<open>map[string][]string\<close>. The callback ranges over it, so the map built
  from the configuration is kept as the list of its entries, in the order one iteration
  visits them; a Go map holds each key once, which is \<open>distinct (map fst h)\<close> here.
  The header map of the response writer is only assigned to, key by key, and is a map.
\<close>

type_synonym http_Header = "(string \<times> string list) list"

type_synonym response_Header = "string \<rightharpoonup> string list"

text \<open>
  The three errors the constructor function builds with \<^verbatim>\<open>sqerrors\<close>; the second one
  carries the number its message prints, \<^verbatim>\<open>len(kv)\<close>.
\<close>

datatype callback_error =
    UnexpectedCallbackDataType
  | UnexpectedNumberOfValues nat
  | UnexpectedEmptyHeaders

text \<open>
  The part of \<^verbatim>\<open>httpprotection.ProtectionContext\<close> the callback touches: the response
  writer, of which it calls \<^verbatim>\<open>Header()\<close>, the writer's own header map (the contract of
  \<^verbatim>\<open>http.ResponseWriter\<close>). The callback gets a pointer to a pointer to the context;
  either pointer may be nil (\<open>None\<close>), and dereferencing it then panics.
\<close>

record response_writer =
  Header :: response_Header

record ProtectionContext =
  ResponseWriter :: response_writer

datatype go_panic = NilPointerDereference

text \<open>
  \<^verbatim>\<open>httpprotection.NonBlockingEpilogCallbackType\<close> is a function type of another package;
  this file only ever returns its nil value.
\<close>

datatype NonBlockingEpilogCallbackType = NonBlockingEpilogCallback

type_synonym AddSecurityHeadersPrologCallbackType =
  "ProtectionContext option option \<Rightarrow>
     go_panic + (ProtectionContext option option
                 \<times> NonBlockingEpilogCallbackType option \<times> callback_error option)"

subsection \<open>The prolog callback\<close>

text \<open>
  \<^verbatim>\<open>for k, v := range headers { responseHeaders[k] = v }\<close>: one assignment per entry, in
  the order the iteration visits them.
\<close>

fun range_assign :: "http_Header \<Rightarrow> response_Header \<Rightarrow> response_Header" where
  "range_assign [] responseHeaders = responseHeaders"
| "range_assign ((k, v) # headers) responseHeaders =
     range_assign headers (responseHeaders(k \<mapsto> v))"

text \<open>
  The closure \<^verbatim>\<open>newAddHeadersPrologCallback\<close> returns. The header map is shared with the
  context, so the context the pointers lead to is returned with the map as the loop left
  it, next to the two results \<^verbatim>\<open>nil, nil\<close>.
\<close>

definition newAddHeadersPrologCallback ::
    "http_Header \<Rightarrow> AddSecurityHeadersPrologCallbackType" where
  "newAddHeadersPrologCallback headers p =
     (case p of
        None \<Rightarrow> Inl NilPointerDereference
      | Some None \<Rightarrow> Inl NilPointerDereference
      | Some (Some ctx) \<Rightarrow>
          (let responseHeaders = Header (ResponseWriter ctx);
               responseHeaders' = range_assign headers responseHeaders
           in Inr (Some (Some (ctx\<lparr>ResponseWriter :=
                                     (ResponseWriter ctx)\<lparr>Header := responseHeaders'\<rparr>\<rparr>)),
                   None, None)))"

subsection \<open>The constructor function\<close>

text \<open>
  \<^verbatim>\<open>headers.Set(key, value)\<close> of \<^verbatim>\<open>net/http\<close> stores the one-element list under the
  canonical form of the key. The canonical form is \<^verbatim>\<open>textproto.CanonicalMIMEHeaderKey\<close>,
  of Go's library: it is the parameter \<open>canon\<close>.
\<close>

definition Header_Set ::
    "(string \<Rightarrow> string) \<Rightarrow> http_Header \<Rightarrow> string \<Rightarrow> string \<Rightarrow> http_Header" where
  "Header_Set canon h key val = AList.update (canon key) [val] h"

text \<open>
  The loop over \<^verbatim>\<open>data\<close>. An element that is not a \<^verbatim>\<open>[]string\<close> leaves \<^verbatim>\<open>kv\<close> nil, so
  the message of that error prints 0; an element of another length than 2 prints its
  length. The first element that fails ends the loop.
\<close>

fun headers_loop ::
    "(string \<Rightarrow> string) \<Rightarrow> cfg_value list \<Rightarrow> http_Header \<Rightarrow> callback_error + http_Header" where
  "headers_loop canon [] headers = Inr headers"
| "headers_loop canon (headersKV # data) headers =
     (case headersKV of
        CfgStrings kv \<Rightarrow>
          if length kv \<noteq> 2 then Inl (UnexpectedNumberOfValues (length kv))
          else headers_loop canon data (Header_Set canon headers (kv ! 0) (kv ! 1))
      | _ \<Rightarrow> Inl (UnexpectedNumberOfValues 0))"

text \<open>
  \<^verbatim>\<open>NewAddSecurityHeadersCallback\<close>, from the value of \<^verbatim>\<open>cfg.Data()\<close> (the function
  asserts that \<^verbatim>\<open>cfg\<close> itself is not nil and ignores its rule context). The result is
  Go's pair: the callback, or nil, and the error, or nil.
\<close>

definition NewAddSecurityHeadersCallback ::
    "(string \<Rightarrow> string) \<Rightarrow> cfg_value \<Rightarrow>
       AddSecurityHeadersPrologCallbackType option \<times> callback_error option" where
  "NewAddSecurityHeadersCallback canon cfg_Data =
     (case cfg_Data of
        CfgList data \<Rightarrow>
          (case headers_loop canon data [] of
             Inl err \<Rightarrow> (None, Some err)
           | Inr headers \<Rightarrow>
               if length headers = 0 then (None, Some UnexpectedEmptyHeaders)
               else (Some (newAddHeadersPrologCallback headers), None))
      | _ \<Rightarrow> (None, Some UnexpectedCallbackDataType))"

text \<open>How the statements below read a configuration value and a result.\<close>

fun is_interface_slice :: "cfg_value \<Rightarrow> bool" where
  "is_interface_slice (CfgList data) = True"
| "is_interface_slice _ = False"

fun elements :: "cfg_value \<Rightarrow> cfg_value list" where
  "elements (CfgList data) = data"
| "elements _ = []"

fun is_string_slice :: "cfg_value \<Rightarrow> bool" where
  "is_string_slice (CfgStrings kv) = True"
| "is_string_slice _ = False"

fun strings_of :: "cfg_value \<Rightarrow> string list" where
  "strings_of (CfgStrings kv) = kv"
| "strings_of _ = []"

definition nil_callback_and_error ::
    "AddSecurityHeadersPrologCallbackType option \<times> callback_error option \<Rightarrow> bool" where
  "nil_callback_and_error r = (fst r = None \<and> snd r \<noteq> None)"

definition callback_and_nil_error ::
    "AddSecurityHeadersPrologCallbackType option \<times> callback_error option \<Rightarrow> bool" where
  "callback_and_nil_error r = (fst r \<noteq> None \<and> snd r = None)"

text \<open>
  The header set a list of elements yields: the canonical keys of its two-string
  elements.
\<close>

definition header_set :: "(string \<Rightarrow> string) \<Rightarrow> cfg_value list \<Rightarrow> string set" where
  "header_set canon data =
     set (map (\<lambda>x. canon (strings_of x ! 0))
            (filter (\<lambda>x. is_string_slice x \<and> length (strings_of x) = 2) data))"

section \<open>The binding-accessor evaluator (internal/binding-accessor)\<close>

text \<open>
  Of the package \<^verbatim>\<open>internal/binding-accessor\<close> the repository's files hold the test file
  only (\<^verbatim>\<open>binding-accessor_test.go\<close>): \<^verbatim>\<open>Compile\<close> and the evaluator it returns are
  missing. The definitions of this section follow the specification's sections 3, 4.3 and
  7, with the constants the test table fixes.
\<close>

subsection \<open>Dynamic values\<close>

text \<open>
  Modelled from the spec: the types of host values, missing with the evaluator. Section
  4.3 needs a keyed container's declared key type and a callable's declared parameter
  types; \<open>TInterface\<close> is the dynamic type \<^verbatim>\<open>interface{}\<close>, and a structured type is known by
  its name.
\<close>

datatype gotype =
    TInt
  | TString
  | TBool
  | TUint16
  | TInterface
  | TPointer gotype
  | TSlice gotype
  | TMap gotype gotype
  | TStruct string
  | TFunc "gotype list" gotype

text \<open>
  Modelled from the spec: the receiver of a behaviour (section 4.3, Field step (c)): one
  defined for the value form, or one defined for the reference form only.
\<close>

datatype receiver = ByValue | ByReference

text \<open>
  Modelled from the spec: host functions, missing with the evaluator. A value names a
  host function by a number; the host maps the number and the arguments to the sum type
  of section 9, a failure message or a result.
\<close>

type_synonym fid = nat

text \<open>
  Modelled from the spec: the dynamic value of section 9, by kind: absent (the nil
  interface), scalars, pointer (\<open>None\<close> is the nil pointer), sequence with its element
  type, keyed container with its key and element types and its entries, structured value
  with its type's name, its data members and its behaviours (methods), and callable with
  its parameter types, its result type and its host function. A non-nil interface is the
  value it holds.
\<close>

datatype dyn =
    Absent
  | IntV int
  | StrV string
  | BoolV bool
  | Uint16V nat
  | PtrV gotype "dyn option"
  | SeqV gotype "dyn list"
  | MapV gotype gotype "(dyn \<times> dyn) list"
  | StructV string "(string \<times> dyn) list" "(string \<times> receiver \<times> fid) list"
  | FuncV "gotype list" gotype fid

type_synonym host = "fid \<Rightarrow> dyn list \<Rightarrow> string + dyn"

subsection \<open>Errors\<close>

text \<open>
  Modelled from the spec: the ordinary execution errors of section 7: nil indirection,
  inaccessible or unknown member, wrong value kind for an index or a call, a sequence
  index that is no integer or is out of range, key-type mismatch, argument count or type
  mismatch, and an error returned by a host callable.
\<close>

datatype failure =
    NilDereference
  | PrivateField string
  | UnknownField string
  | NotIndexable
  | InvalidSequenceIndex
  | IndexOutOfRange
  | KeyTypeMismatch
  | NotCallable
  | UnexpectedArgumentCount
  | UnexpectedArgumentType
  | CallableError string

text \<open>
  Modelled from the spec: the error of an evaluation (sections 6 and 7): the
  distinguished sentinel \<^verbatim>\<open>ErrMaxExecutionDepth\<close>, or an ordinary execution error.
\<close>

datatype exec_error =
    ErrMaxExecutionDepth
  | ExecutionError failure

subsection \<open>Programs\<close>

text \<open>
  Modelled from the spec: the index literal of section 3, an integer or a quoted string.
\<close>

datatype literal = IntLit int | StrLit string

text \<open>
  Modelled from the spec: the root of an expression (section 4.1): the context
  placeholder \<^verbatim>\<open>#\<close>, a string literal, or \<^verbatim>\<open>nil\<close>.
\<close>

datatype root = RootContext | RootString string | RootNil

text \<open>
  Modelled from the spec: the steps and the program of section 3: \<^verbatim>\<open>Field(name)\<close>,
  \<^verbatim>\<open>Index(literal)\<close> and \<^verbatim>\<open>Call(args)\<close>, whose arguments are programs themselves, chained
  left to right after the root. The optional trailing transform is left out: no statement
  below is about it.
\<close>

datatype step = FieldStep string | IndexStep literal | CallStep "program list"
and program = Program root "step list"

subsection \<open>The depth guard\<close>

text \<open>
  Modelled from the spec: the value-and-depth state section 4.3 threads through the
  chain.
\<close>

record state =
  current :: dyn
  depth :: nat

text \<open>
  Modelled from the spec: the fixed maximum traversal depth. The specification leaves
  the number to the test table, where a chain of ten index steps succeeds and one of
  eleven fails (\<^verbatim>\<open>binding-accessor_test.go\<close>, lines 481 to 493).
\<close>

definition MaxExecutionDepth :: nat where
  "MaxExecutionDepth = 10"

text \<open>
  Modelled from the spec: the depth guard of section 4.3: every Field, Index or Call
  step increments the counter, and exceeding the maximum aborts the evaluation with
  \<^verbatim>\<open>ErrMaxExecutionDepth\<close>.
\<close>

definition enter :: "state \<Rightarrow> exec_error + state" where
  "enter st =
     (let d = depth st + 1
      in if d > MaxExecutionDepth then Inl ErrMaxExecutionDepth else Inr (st\<lparr>depth := d\<rparr>))"

subsection \<open>The steps\<close>

text \<open>
  Modelled from the spec: unwrapping of pointer and interface indirection (section 4.3,
  Field step (a)): a nil pointer or interface met on the way is an execution error. The
  flag says whether the value was reached through a reference.
\<close>

fun unwrap :: "bool \<Rightarrow> dyn \<Rightarrow> exec_error + (dyn \<times> bool)" where
  "unwrap r Absent = Inl (ExecutionError NilDereference)"
| "unwrap r (PtrV t None) = Inl (ExecutionError NilDereference)"
| "unwrap r (PtrV t (Some v)) = unwrap True v"
| "unwrap r v = Inr (v, r)"

text \<open>
  Modelled from the spec: which member names are public (section 4.3, Field step (b)).
  The host language's rule is taken: the name starts with an upper-case letter, as the
  private member \<^verbatim>\<open>foo\<close> of the test table (line 452) does not.
\<close>

definition is_public :: "string \<Rightarrow> bool" where
  "is_public name =
     (case name of [] \<Rightarrow> False | c # _ \<Rightarrow> (65::nat) \<le> of_char c \<and> of_char c \<le> (90::nat))"

text \<open>
  Modelled from the spec: the Field step (section 4.3): unwrap; look the data member up
  by its exact name, a non-public one being an error; failing that, look up a
  zero-argument behaviour of that name, visible when it is defined for the value form or
  the value was reached through a reference, and invoke it on the value; failing both,
  the error "unknown field".
\<close>

definition exec_field :: "host \<Rightarrow> string \<Rightarrow> dyn \<Rightarrow> exec_error + dyn" where
  "exec_field host name v =
     (case unwrap False v of
        Inl e \<Rightarrow> Inl e
      | Inr (s, by_ref) \<Rightarrow>
          (case s of
             StructV tn members methods \<Rightarrow>
               (case map_of members name of
                  Some m \<Rightarrow>
                    if is_public name then Inr m else Inl (ExecutionError (PrivateField name))
                | None \<Rightarrow>
                    (case map_of methods name of
                       Some (recv, f) \<Rightarrow>
                         if recv = ByValue \<or> by_ref then
                           (case host f [s] of
                              Inl msg \<Rightarrow> Inl (ExecutionError (CallableError msg))
                            | Inr res \<Rightarrow> Inr res)
                         else Inl (ExecutionError (UnknownField name))
                     | None \<Rightarrow> Inl (ExecutionError (UnknownField name))))
           | _ \<Rightarrow> Inl (ExecutionError (UnknownField name))))"

text \<open>
  Modelled from the spec: the type of an index literal and the key it stands for
  (section 4.3, Index step).
\<close>

fun literal_type :: "literal \<Rightarrow> gotype" where
  "literal_type (IntLit i) = TInt"
| "literal_type (StrLit s) = TString"

fun literal_key :: "literal \<Rightarrow> dyn" where
  "literal_key (IntLit i) = IntV i"
| "literal_key (StrLit s) = StrV s"

text \<open>
  Modelled from the spec: assignability of a literal's type to a declared key type
  (section 4.3, Index step): to the type itself, and to the dynamic type.
\<close>

definition assignable_to :: "gotype \<Rightarrow> gotype \<Rightarrow> bool" where
  "assignable_to t target = (target = t \<or> target = TInterface)"

text \<open>
  Modelled from the spec: the Index step (section 4.3): unwrap; on a sequence the
  literal must be a non-negative integer within range; on a keyed container the
  literal's type must be assignable to the declared key type, and a key that is absent
  yields the absent value with no error; any other kind of value is an error.
\<close>

definition exec_index :: "literal \<Rightarrow> dyn \<Rightarrow> exec_error + dyn" where
  "exec_index lit v =
     (case unwrap False v of
        Inl e \<Rightarrow> Inl e
      | Inr (s, by_ref) \<Rightarrow>
          (case s of
             SeqV t xs \<Rightarrow>
               (case lit of
                  IntLit i \<Rightarrow>
                    if 0 \<le> i \<and> nat i < length xs then Inr (xs ! nat i)
                    else Inl (ExecutionError IndexOutOfRange)
                | StrLit k \<Rightarrow> Inl (ExecutionError InvalidSequenceIndex))
           | MapV kt vt entries \<Rightarrow>
               if assignable_to (literal_type lit) kt then
                 (case map_of entries (literal_key lit) of
                    Some x \<Rightarrow> Inr x
                  | None \<Rightarrow> Inr Absent)
               else Inl (ExecutionError KeyTypeMismatch)
           | _ \<Rightarrow> Inl (ExecutionError NotIndexable)))"

text \<open>
  Modelled from the spec: the type a value has at run time, which the conversion of
  call arguments compares with the declared parameter type (section 4.3, Call step).
\<close>

fun type_of :: "dyn \<Rightarrow> gotype option" where
  "type_of Absent = None"
| "type_of (IntV i) = Some TInt"
| "type_of (StrV s) = Some TString"
| "type_of (BoolV b) = Some TBool"
| "type_of (Uint16V n) = Some TUint16"
| "type_of (PtrV t p) = Some (TPointer t)"
| "type_of (SeqV t xs) = Some (TSlice t)"
| "type_of (MapV kt vt es) = Some (TMap kt vt)"
| "type_of (StructV tn ms fs) = Some (TStruct tn)"
| "type_of (FuncV ps r f) = Some (TFunc ps r)"

text \<open>
  Modelled from the spec: conversion of the arguments to the declared parameter types
  (section 4.3, Call step): a dynamic parameter takes what is assignable to it, a
  concrete one needs the exact type, and a mismatch of type or count is an error.
\<close>

definition convert_arg :: "dyn \<Rightarrow> gotype \<Rightarrow> exec_error + dyn" where
  "convert_arg a t =
     (if t = TInterface then Inr a
      else if type_of a = Some t then Inr a
      else Inl (ExecutionError UnexpectedArgumentType))"

fun convert_args :: "dyn list \<Rightarrow> gotype list \<Rightarrow> exec_error + dyn list" where
  "convert_args [] [] = Inr []"
| "convert_args (a # as) (t # ts) =
     (case convert_arg a t of
        Inl e \<Rightarrow> Inl e
      | Inr a' \<Rightarrow> (case convert_args as ts of Inl e \<Rightarrow> Inl e | Inr as' \<Rightarrow> Inr (a' # as')))"
| "convert_args _ _ = Inl (ExecutionError UnexpectedArgumentCount)"

text \<open>
  Modelled from the spec: the invocation of the Call step (section 4.3): the current
  value must be a callable; the failure it signals becomes the evaluation's error.
\<close>

definition invoke :: "host \<Rightarrow> dyn \<Rightarrow> dyn list \<Rightarrow> exec_error + dyn" where
  "invoke host v args =
     (case v of
        FuncV ps r f \<Rightarrow>
          (case convert_args args ps of
             Inl e \<Rightarrow> Inl e
           | Inr args' \<Rightarrow>
               (case host f args' of
                  Inl msg \<Rightarrow> Inl (ExecutionError (CallableError msg))
                | Inr res \<Rightarrow> Inr res))
      | _ \<Rightarrow> Inl (ExecutionError NotCallable))"

subsection \<open>Evaluation\<close>

text \<open>
  Modelled from the spec: the Root step (section 4.3) seeds the running value with the
  context value; a literal root ignores the context (section 4.1).
\<close>

fun root_value :: "root \<Rightarrow> dyn \<Rightarrow> dyn" where
  "root_value RootContext ctx = ctx"
| "root_value (RootString s) ctx = StrV s"
| "root_value RootNil ctx = Absent"

text \<open>
  Modelled from the spec: \<^verbatim>\<open>evaluate(program, contextValue)\<close> of section 4.3. The counter
  starts at 0 in every evaluation; each step passes the depth guard first and then acts
  on the running value; the first failure ends the chain. The arguments of a Call step
  are evaluated against the original context value, each as a program of its own.
\<close>

fun evaluate :: "host \<Rightarrow> program \<Rightarrow> dyn \<Rightarrow> exec_error + dyn"
and exec_steps :: "host \<Rightarrow> dyn \<Rightarrow> step list \<Rightarrow> state \<Rightarrow> exec_error + state"
and exec_step :: "host \<Rightarrow> dyn \<Rightarrow> step \<Rightarrow> state \<Rightarrow> exec_error + state"
and apply_step :: "host \<Rightarrow> dyn \<Rightarrow> step \<Rightarrow> dyn \<Rightarrow> exec_error + dyn"
and eval_args :: "host \<Rightarrow> dyn \<Rightarrow> program list \<Rightarrow> exec_error + dyn list" where
  "evaluate host (Program r steps) ctx =
     (case exec_steps host ctx steps \<lparr>current = root_value r ctx, depth = 0\<rparr> of
        Inl e \<Rightarrow> Inl e
      | Inr st \<Rightarrow> Inr (current st))"
| "exec_steps host ctx [] st = Inr st"
| "exec_steps host ctx (s # ss) st =
     (case exec_step host ctx s st of
        Inl e \<Rightarrow> Inl e
      | Inr st' \<Rightarrow> exec_steps host ctx ss st')"
| "exec_step host ctx s st =
     (case enter st of
        Inl e \<Rightarrow> Inl e
      | Inr st' \<Rightarrow>
          (case apply_step host ctx s (current st') of
             Inl e \<Rightarrow> Inl e
           | Inr v \<Rightarrow> Inr (st'\<lparr>current := v\<rparr>)))"
| "apply_step host ctx (FieldStep name) v = exec_field host name v"
| "apply_step host ctx (IndexStep lit) v = exec_index lit v"
| "apply_step host ctx (CallStep args) v =
     (case eval_args host ctx args of
        Inl e \<Rightarrow> Inl e
      | Inr vs \<Rightarrow> invoke host v vs)"
| "eval_args host ctx [] = Inr []"
| "eval_args host ctx (p # ps) =
     (case evaluate host p ctx of
        Inl e \<Rightarrow> Inl e
      | Inr v \<Rightarrow> (case eval_args host ctx ps of Inl e \<Rightarrow> Inl e | Inr vs \<Rightarrow> Inr (v # vs)))"

subsection \<open>What the statements are written with\<close>

text \<open>
  What a chain of steps resolves to on a value when nothing bounds its length: the
  steps' own results, with no counter.
\<close>

fun resolve :: "host \<Rightarrow> dyn \<Rightarrow> step list \<Rightarrow> dyn \<Rightarrow> exec_error + dyn" where
  "resolve host ctx [] v = Inr v"
| "resolve host ctx (s # ss) v =
     (case apply_step host ctx s v of
        Inl e \<Rightarrow> Inl e
      | Inr w \<Rightarrow> resolve host ctx ss w)"

text \<open>
  The contexts of the test table's depth cases: \<open>n\<close> one-element sequences around a
  value, and structured values nested along a list of member names.
\<close>

fun nested_seq :: "nat \<Rightarrow> dyn \<Rightarrow> dyn" where
  "nested_seq 0 v = v"
| "nested_seq (Suc n) v = SeqV TInterface [nested_seq n v]"

fun nested_struct :: "string list \<Rightarrow> dyn \<Rightarrow> dyn" where
  "nested_struct [] v = v"
| "nested_struct (f # fs) v = StructV f [(f, nested_struct fs v)] []"

fun is_sequence :: "dyn \<Rightarrow> bool" where
  "is_sequence (SeqV t xs) = True"
| "is_sequence _ = False"

fun is_keyed :: "dyn \<Rightarrow> bool" where
  "is_keyed (MapV kt vt es) = True"
| "is_keyed _ = False"

section \<open>Properties of the security-headers callback\<close>

subsection \<open>Properties of the callback\<close>

text \<open>
  Each entry of the configured headers is assigned once; with every key held once, the
  loop leaves the response's map overridden by the configured one.
\<close>

lemma range_assign_distinct:
  "distinct (map fst headers) \<Longrightarrow> range_assign headers r = r ++ map_of headers"
proof (induction headers arbitrary: r)
  case Nil
  then show ?case by simp
next
  case (Cons kv headers)
  obtain k v where kv: "kv = (k, v)" by (cases kv)
  from Cons.prems kv have fresh: "map_of headers k = None" and d: "distinct (map fst headers)"
    by (auto simp: map_of_eq_None_iff)
  have "range_assign (kv # headers) r = r(k \<mapsto> v) ++ map_of headers"
    by (simp only: kv range_assign.simps Cons.IH [OF d])
  also have "\<dots> = r ++ map_of (kv # headers)"
    using fresh kv by (auto simp: map_add_def fun_eq_iff split: option.splits)
  finally show ?case .
qed

subsection \<open>Properties of the constructor function\<close>

text \<open>The loop ends without an error exactly on a list of two-string elements.\<close>

lemma headers_loop_Inr_iff:
  "(\<exists>h'. headers_loop canon data h = Inr h') \<longleftrightarrow>
   (\<forall>x\<in>set data. is_string_slice x \<and> length (strings_of x) = 2)"
proof (induction data arbitrary: h)
  case Nil
  then show ?case by simp
next
  case (Cons x data)
  then show ?case by (cases x) auto
qed

text \<open>The keys of the map it builds, and that it holds each key once.\<close>

lemma headers_loop_keys:
  "headers_loop canon data h = Inr h' \<Longrightarrow> fst ` set h' = fst ` set h \<union> header_set canon data"
proof (induction data arbitrary: h)
  case Nil
  then show ?case by (simp add: header_set_def)
next
  case (Cons x data)
  show ?case
  proof (cases x)
    case (CfgStrings kv)
    with Cons.prems have len: "length kv = 2"
      and rest: "headers_loop canon data (Header_Set canon h (kv ! 0) (kv ! 1)) = Inr h'"
      by (auto split: if_splits)
    have "fst ` set h' = fst ` set (Header_Set canon h (kv ! 0) (kv ! 1)) \<union> header_set canon data"
      using Cons.IH [OF rest] .
    moreover have "fst ` set (Header_Set canon h (kv ! 0) (kv ! 1)) = insert (canon (kv ! 0)) (fst ` set h)"
      by (simp add: Header_Set_def dom_update)
    moreover have "header_set canon (x # data) = insert (canon (kv ! 0)) (header_set canon data)"
      using CfgStrings len by (auto simp: header_set_def)
    ultimately show ?thesis by auto
  qed (use Cons.prems in auto)
qed

lemma headers_loop_distinct:
  "headers_loop canon data h = Inr h' \<Longrightarrow> distinct (map fst h) \<Longrightarrow> distinct (map fst h')"
proof (induction data arbitrary: h)
  case Nil
  then show ?case by simp
next
  case (Cons x data)
  then show ?case
    by (cases x) (auto simp: Header_Set_def distinct_update split: if_splits)
qed

lemma header_set_empty_iff:
  "\<forall>x\<in>set data. is_string_slice x \<and> length (strings_of x) = 2 \<Longrightarrow>
   header_set canon data = {} \<longleftrightarrow> data = []"
  by (cases data) (auto simp: header_set_def)


lemma NewAddSecurityHeadersCallback_error_iff:
  "nil_callback_and_error (NewAddSecurityHeadersCallback canon cfg_Data) \<longleftrightarrow>
     (\<not> is_interface_slice cfg_Data
      \<or> (\<exists>x\<in>set (elements cfg_Data). \<not> is_string_slice x)
      \<or> (\<exists>x\<in>set (elements cfg_Data). is_string_slice x \<and> length (strings_of x) \<noteq> 2)
      \<or> header_set canon (elements cfg_Data) = {})"
proof (cases cfg_Data)
  case (CfgList data)
  show ?thesis
  proof (cases "headers_loop canon data []")
    case (Inl err)
    then have "\<not> (\<forall>x\<in>set data. is_string_slice x \<and> length (strings_of x) = 2)"
      using headers_loop_Inr_iff [of canon data "[]"] by auto
    then show ?thesis
      using CfgList Inl
      by (auto simp: NewAddSecurityHeadersCallback_def nil_callback_and_error_def)
  next
    case (Inr headers)
    then have pairs: "\<forall>x\<in>set data. is_string_slice x \<and> length (strings_of x) = 2"
      using headers_loop_Inr_iff [of canon data "[]"] by auto
    have "fst ` set headers = header_set canon data"
      using headers_loop_keys [OF Inr] by simp
    then have "headers = [] \<longleftrightarrow> header_set canon data = {}"
      by auto
    then show ?thesis
      using CfgList Inr pairs
      by (auto simp: NewAddSecurityHeadersCallback_def nil_callback_and_error_def)
  qed
qed (simp_all add: NewAddSecurityHeadersCallback_def nil_callback_and_error_def)

lemma NewAddSecurityHeadersCallback_total:
  "nil_callback_and_error (NewAddSecurityHeadersCallback canon cfg_Data)
   \<or> callback_and_nil_error (NewAddSecurityHeadersCallback canon cfg_Data)"
  by (auto simp: NewAddSecurityHeadersCallback_def nil_callback_and_error_def
        callback_and_nil_error_def split: cfg_value.splits sum.splits)

lemma NewAddSecurityHeadersCallback_headers:
  assumes "callback_and_nil_error (NewAddSecurityHeadersCallback canon cfg_Data)"
  shows "\<exists>headers. NewAddSecurityHeadersCallback canon cfg_Data
                      = (Some (newAddHeadersPrologCallback headers), None)
           \<and> distinct (map fst headers)
           \<and> fst ` set headers = header_set canon (elements cfg_Data)"
proof (cases cfg_Data)
  case (CfgList data)
  show ?thesis
  proof (cases "headers_loop canon data []")
    case (Inl err)
    with CfgList assms show ?thesis
      by (simp add: NewAddSecurityHeadersCallback_def callback_and_nil_error_def)
  next
    case (Inr headers)
    have "distinct (map fst headers)"
      using headers_loop_distinct [OF Inr] by simp
    moreover have "fst ` set headers = header_set canon data"
      using headers_loop_keys [OF Inr] by simp
    moreover have "headers \<noteq> []"
      using CfgList Inr assms
      by (auto simp: NewAddSecurityHeadersCallback_def callback_and_nil_error_def)
    ultimately show ?thesis
      using CfgList Inr
      by (intro exI [of _ headers]) (simp add: NewAddSecurityHeadersCallback_def)
  qed
qed (use assms in \<open>simp_all add: NewAddSecurityHeadersCallback_def callback_and_nil_error_def\<close>)

text \<open>
  C9. \<^verbatim>\<open>NewAddSecurityHeadersCallback\<close> returns a nil callback and an error exactly when
  the configuration data is not a \<^verbatim>\<open>[]interface{}\<close>, or one of its elements is not a
  \<^verbatim>\<open>[]string\<close>, or one of its elements is a \<^verbatim>\<open>[]string\<close> of another length than 2, or
  the data yields an empty header set, as the empty list does; on every other
  configuration it returns a callback and a nil error.
\<close>

theorem NewAddSecurityHeadersCallback_result:
  "(nil_callback_and_error (NewAddSecurityHeadersCallback canon cfg_Data) \<longleftrightarrow>
      (\<not> is_interface_slice cfg_Data
       \<or> (\<exists>x\<in>set (elements cfg_Data). \<not> is_string_slice x)
       \<or> (\<exists>x\<in>set (elements cfg_Data). is_string_slice x \<and> length (strings_of x) \<noteq> 2)
       \<or> header_set canon (elements cfg_Data) = {}))
   \<and> (elements cfg_Data = [] \<longrightarrow> header_set canon (elements cfg_Data) = {})
   \<and> (\<not> nil_callback_and_error (NewAddSecurityHeadersCallback canon cfg_Data) \<longrightarrow>
        callback_and_nil_error (NewAddSecurityHeadersCallback canon cfg_Data))"
proof (intro conjI)
  show "nil_callback_and_error (NewAddSecurityHeadersCallback canon cfg_Data) \<longleftrightarrow>
      (\<not> is_interface_slice cfg_Data
       \<or> (\<exists>x\<in>set (elements cfg_Data). \<not> is_string_slice x)
       \<or> (\<exists>x\<in>set (elements cfg_Data). is_string_slice x \<and> length (strings_of x) \<noteq> 2)
       \<or> header_set canon (elements cfg_Data) = {})"
    by (rule NewAddSecurityHeadersCallback_error_iff)
  show "elements cfg_Data = [] \<longrightarrow> header_set canon (elements cfg_Data) = {}"
    by (simp add: header_set_def)
  show "\<not> nil_callback_and_error (NewAddSecurityHeadersCallback canon cfg_Data) \<longrightarrow>
        callback_and_nil_error (NewAddSecurityHeadersCallback canon cfg_Data)"
    using NewAddSecurityHeadersCallback_total [of canon cfg_Data] by blast
qed

theorem NewAddSecurityHeadersCallback_result_witness:
  "callback_and_nil_error
     (NewAddSecurityHeadersCallback id
        (CfgList [CfgStrings [''X-Frame-Options'', ''DENY''],
                  CfgStrings [''X-Content-Type-Options'', ''nosniff'']]))
   \<and> nil_callback_and_error
       (NewAddSecurityHeadersCallback id (CfgList [CfgStrings [''X-Frame-Options'']]))
   \<and> nil_callback_and_error (NewAddSecurityHeadersCallback id (CfgList []))
   \<and> nil_callback_and_error (NewAddSecurityHeadersCallback id (CfgString ''DENY''))
   \<and> nil_callback_and_error (NewAddSecurityHeadersCallback id (CfgOther ''[][]string''))"
  using
    NewAddSecurityHeadersCallback_result [of id
      "CfgList [CfgStrings [''X-Frame-Options'', ''DENY''],
                CfgStrings [''X-Content-Type-Options'', ''nosniff'']]"]
    NewAddSecurityHeadersCallback_result [of id "CfgList [CfgStrings [''X-Frame-Options'']]"]
    NewAddSecurityHeadersCallback_result [of id "CfgList []"]
    NewAddSecurityHeadersCallback_result [of id "CfgString ''DENY''"]
    NewAddSecurityHeadersCallback_result [of id "CfgOther ''[][]string''"]
  by (simp add: header_set_def)

text \<open>Called through a nil pointer, the callback panics on the dereference.\<close>

lemma newAddHeadersPrologCallback_nil:
  "newAddHeadersPrologCallback headers None = Inl NilPointerDereference"
  "newAddHeadersPrologCallback headers (Some None) = Inl NilPointerDereference"
  by (simp_all add: newAddHeadersPrologCallback_def)

text \<open>
  C10. Called on a protection context, the callback of \<^verbatim>\<open>newAddHeadersPrologCallback\<close>
  returns a nil epilog callback and a nil error, and leaves the response writer's header
  map with every configured key holding its configured value, whatever it held before,
  and every other key as it was. The configured headers are a Go map: each key once.
\<close>

theorem newAddHeadersPrologCallback_frame:
  assumes "distinct (map fst headers)"
  shows "\<exists>ctx'. newAddHeadersPrologCallback headers (Some (Some ctx))
                  = Inr (Some (Some ctx'), None, None)
           \<and> (\<forall>k v. (k, v) \<in> set headers \<longrightarrow> Header (ResponseWriter ctx') k = Some v)
           \<and> (\<forall>k. k \<notin> fst ` set headers \<longrightarrow>
                  Header (ResponseWriter ctx') k = Header (ResponseWriter ctx) k)"
proof -
  let ?h = "Header (ResponseWriter ctx) ++ map_of headers"
  let ?ctx = "ctx\<lparr>ResponseWriter := (ResponseWriter ctx)\<lparr>Header := ?h\<rparr>\<rparr>"
  have run: "newAddHeadersPrologCallback headers (Some (Some ctx)) = Inr (Some (Some ?ctx), None, None)"
    by (simp add: newAddHeadersPrologCallback_def range_assign_distinct [OF assms])
  have written: "\<forall>k v. (k, v) \<in> set headers \<longrightarrow> ?h k = Some v"
    using assms by (simp add: map_add_def)
  have others: "\<forall>k. k \<notin> fst ` set headers \<longrightarrow> ?h k = Header (ResponseWriter ctx) k"
  proof (intro allI impI)
    fix k
    assume "k \<notin> fst ` set headers"
    then have "map_of headers k = None"
      by (simp add: map_of_eq_None_iff)
    then show "?h k = Header (ResponseWriter ctx) k"
      by (simp add: map_add_def)
  qed
  from run written others show ?thesis by simp
qed

theorem newAddHeadersPrologCallback_frame_witness:
  "distinct (map fst [(''X-Frame-Options'', [''DENY''])])
   \<and> (\<exists>ctx'. newAddHeadersPrologCallback [(''X-Frame-Options'', [''DENY''])]
               (Some (Some \<lparr>ResponseWriter = \<lparr>Header =
                  [''X-Frame-Options'' \<mapsto> [''SAMEORIGIN''], ''Server'' \<mapsto> [''go'']]\<rparr>\<rparr>))
             = Inr (Some (Some ctx'), None, None)
        \<and> Header (ResponseWriter ctx') ''X-Frame-Options'' = Some [''DENY'']
        \<and> Header (ResponseWriter ctx') ''Server'' = Some [''go'']
        \<and> Header (ResponseWriter ctx') ''Date'' = None)"
proof -
  have d: "distinct (map fst [(''X-Frame-Options'', [''DENY''])])" by simp
  from newAddHeadersPrologCallback_frame [OF d, of
      "\<lparr>ResponseWriter = \<lparr>Header =
          [''X-Frame-Options'' \<mapsto> [''SAMEORIGIN''], ''Server'' \<mapsto> [''go'']]\<rparr>\<rparr>"]
  obtain ctx' where
    run: "newAddHeadersPrologCallback [(''X-Frame-Options'', [''DENY''])]
               (Some (Some \<lparr>ResponseWriter = \<lparr>Header =
                  [''X-Frame-Options'' \<mapsto> [''SAMEORIGIN''], ''Server'' \<mapsto> [''go'']]\<rparr>\<rparr>))
             = Inr (Some (Some ctx'), None, None)"
    and w: "\<forall>k v. (k, v) \<in> set [(''X-Frame-Options'', [''DENY''])] \<longrightarrow>
              Header (ResponseWriter ctx') k = Some v"
    and o: "\<forall>k. k \<notin> fst ` set [(''X-Frame-Options'', [''DENY''])] \<longrightarrow>
              Header (ResponseWriter ctx') k =
              Header (ResponseWriter \<lparr>ResponseWriter = \<lparr>Header =
                  [''X-Frame-Options'' \<mapsto> [''SAMEORIGIN''], ''Server'' \<mapsto> [''go'']]\<rparr>\<rparr>) k"
    by blast
  from w have "Header (ResponseWriter ctx') ''X-Frame-Options'' = Some [''DENY'']" by simp
  moreover from o have "Header (ResponseWriter ctx') ''Server'' = Some [''go'']" by simp
  moreover from o have "Header (ResponseWriter ctx') ''Date'' = None" by simp
  ultimately show ?thesis using d run by blast
qed

section \<open>Properties of the binding-accessor evaluator\<close>

subsection \<open>The depth counter\<close>

text \<open>A step passes the guard exactly while the counter is below the maximum.\<close>

lemma enter_simp:
  "enter st = (if depth st < MaxExecutionDepth then Inr (st\<lparr>depth := Suc (depth st)\<rparr>)
               else Inl ErrMaxExecutionDepth)"
  by (auto simp: enter_def Let_def)

text \<open>A step that succeeds has counted once; a chain that succeeds, once per step.\<close>

lemma exec_step_depth:
  "exec_step host ctx s st = Inr st' \<Longrightarrow> depth st' = Suc (depth st) \<and> depth st' \<le> MaxExecutionDepth"
  by (auto simp: enter_simp split: if_splits sum.splits)

lemma exec_steps_depth:
  "exec_steps host ctx ss st = Inr st' \<Longrightarrow> depth st' = depth st + length ss"
proof (induction ss arbitrary: st)
  case Nil
  then show ?case by simp
next
  case (Cons s ss)
  from Cons.prems obtain st1 where
    s1: "exec_step host ctx s st = Inr st1" and rest: "exec_steps host ctx ss st1 = Inr st'"
    by (auto simp del: exec_step.simps split: sum.splits)
  from exec_step_depth [OF s1] Cons.IH [OF rest] show ?case by simp
qed

text \<open>At the maximum every step fails with the sentinel; below it the step decides.\<close>

lemma exec_step_at_limit:
  "MaxExecutionDepth \<le> depth st \<Longrightarrow> exec_step host ctx s st = Inl ErrMaxExecutionDepth"
  by (simp add: enter_simp)

lemma exec_step_below_limit:
  "depth st < MaxExecutionDepth \<Longrightarrow>
   exec_step host ctx s st =
     (case apply_step host ctx s (current st) of
        Inl e \<Rightarrow> Inl e
      | Inr v \<Rightarrow> Inr \<lparr>current = v, depth = Suc (depth st)\<rparr>)"
  by (simp add: enter_simp split: sum.splits)

text \<open>
  A chain that fits under the maximum runs as its steps resolve: the guard changes
  nothing.
\<close>

lemma exec_steps_within:
  "depth st + length ss \<le> MaxExecutionDepth \<Longrightarrow>
   exec_steps host ctx ss st =
     (case resolve host ctx ss (current st) of
        Inl e \<Rightarrow> Inl e
      | Inr v \<Rightarrow> Inr \<lparr>current = v, depth = depth st + length ss\<rparr>)"
proof (induction ss arbitrary: st)
  case Nil
  then show ?case by simp
next
  case (Cons s ss)
  from Cons.prems have below: "depth st < MaxExecutionDepth" by simp
  show ?case
  proof (cases "apply_step host ctx s (current st)")
    case (Inl e)
    then show ?thesis
      using exec_step_below_limit [OF below, of host ctx s] by (simp del: exec_step.simps)
  next
    case (Inr v)
    let ?st1 = "\<lparr>current = v, depth = Suc (depth st)\<rparr>"
    have s1: "exec_step host ctx s st = Inr ?st1"
      using exec_step_below_limit [OF below, of host ctx s] Inr by (simp del: exec_step.simps)
    have "depth ?st1 + length ss \<le> MaxExecutionDepth" using Cons.prems by simp
    from Cons.IH [OF this] s1 Inr show ?thesis
      by (simp del: exec_step.simps split: sum.splits)
  qed
qed

text \<open>
  A longer chain whose first \<open>MaxExecutionDepth\<close> steps resolve fails at the next step
  with the sentinel, and no longer chain succeeds.
\<close>

lemma exec_steps_append:
  "exec_steps host ctx (xs @ ys) st =
     (case exec_steps host ctx xs st of
        Inl e \<Rightarrow> Inl e
      | Inr st' \<Rightarrow> exec_steps host ctx ys st')"
  by (induction xs arbitrary: st) (auto simp del: exec_step.simps split: sum.splits)

lemma exec_steps_beyond:
  assumes long: "MaxExecutionDepth < length ss"
    and pre: "resolve host ctx (take MaxExecutionDepth ss) v = Inr w"
  shows "exec_steps host ctx ss \<lparr>current = v, depth = 0\<rparr> = Inl ErrMaxExecutionDepth"
proof -
  let ?xs = "take MaxExecutionDepth ss" and ?ys = "drop MaxExecutionDepth ss"
  have len: "length ?xs = MaxExecutionDepth" using long by simp
  obtain y ys where ys: "?ys = y # ys" using long by (cases ?ys) auto
  have "exec_steps host ctx ?xs \<lparr>current = v, depth = 0\<rparr>
          = Inr \<lparr>current = w, depth = MaxExecutionDepth\<rparr>"
    using exec_steps_within [of "\<lparr>current = v, depth = 0\<rparr>" ?xs host ctx] pre len by simp
  moreover have "exec_steps host ctx ?ys \<lparr>current = w, depth = MaxExecutionDepth\<rparr>
          = Inl ErrMaxExecutionDepth"
    using exec_step_at_limit [of "\<lparr>current = w, depth = MaxExecutionDepth\<rparr>" host ctx y]
    by (simp add: ys del: exec_step.simps)
  ultimately show ?thesis
    using exec_steps_append [of host ctx ?xs ?ys "\<lparr>current = v, depth = 0\<rparr>"]
    unfolding append_take_drop_id by simp
qed

lemma exec_steps_depth_le:
  "exec_steps host ctx ss st = Inr st' \<Longrightarrow> depth st' \<le> max (depth st) MaxExecutionDepth"
proof (induction ss arbitrary: st)
  case Nil
  then show ?case by simp
next
  case (Cons s ss)
  from Cons.prems obtain st1 where
    s1: "exec_step host ctx s st = Inr st1" and rest: "exec_steps host ctx ss st1 = Inr st'"
    by (auto simp del: exec_step.simps split: sum.splits)
  from exec_step_depth [OF s1] Cons.IH [OF rest] show ?case by simp
qed

lemma evaluate_too_long:
  assumes "MaxExecutionDepth < length ss"
  shows "evaluate host (Program r ss) ctx \<noteq> Inr v"
proof
  assume "evaluate host (Program r ss) ctx = Inr v"
  then obtain st' where
    run: "exec_steps host ctx ss \<lparr>current = root_value r ctx, depth = 0\<rparr> = Inr st'"
    by (auto split: sum.splits)
  from exec_steps_depth [OF run] exec_steps_depth_le [OF run] assms show False by simp
qed

lemma evaluate_within:
  "length ss \<le> MaxExecutionDepth \<Longrightarrow>
   evaluate host (Program r ss) ctx = resolve host ctx ss (root_value r ctx)"
  using exec_steps_within [of "\<lparr>current = root_value r ctx, depth = 0\<rparr>" ss host ctx]
  by (simp split: sum.splits)

lemma evaluate_beyond:
  "MaxExecutionDepth < length ss \<Longrightarrow>
   resolve host ctx (take MaxExecutionDepth ss) (root_value r ctx) = Inr w \<Longrightarrow>
   evaluate host (Program r ss) ctx = Inl ErrMaxExecutionDepth"
  using exec_steps_beyond [of ss host ctx "root_value r ctx" w] by simp

text \<open>Index chains on nested sequences and field chains on nested structured values.\<close>

lemma resolve_index_chain:
  "resolve host ctx (replicate n (IndexStep (IntLit 0))) (nested_seq (n + k) v) = Inr (nested_seq k v)"
  by (induction n) (simp_all add: exec_index_def)

lemma resolve_field_chain:
  "\<forall>f\<in>set fs. is_public f \<Longrightarrow>
   resolve host ctx (map FieldStep fs) (nested_struct (fs @ gs) v) = Inr (nested_struct gs v)"
  by (induction fs) (simp_all add: exec_field_def)


lemma evaluate_index_chain_within:
  assumes "n \<le> MaxExecutionDepth"
  shows "evaluate host (Program RootContext (replicate n (IndexStep (IntLit 0)))) (nested_seq n v) = Inr v"
  using evaluate_within [of "replicate n (IndexStep (IntLit 0))" host RootContext "nested_seq n v"]
    resolve_index_chain [of host "nested_seq n v" n 0 v] assms
  by simp

lemma evaluate_index_chain_beyond:
  assumes "MaxExecutionDepth < n"
  shows "evaluate host (Program RootContext (replicate n (IndexStep (IntLit 0)))) (nested_seq n v)
           = Inl ErrMaxExecutionDepth"
proof -
  let ?m = MaxExecutionDepth
  have split: "n = ?m + (n - ?m)" using assms by simp
  have "take ?m (replicate n (IndexStep (IntLit 0))) = replicate ?m (IndexStep (IntLit 0))"
    using assms by (simp add: min_def)
  moreover have "resolve host (nested_seq n v) (replicate ?m (IndexStep (IntLit 0)))
                   (nested_seq (?m + (n - ?m)) v) = Inr (nested_seq (n - ?m) v)"
    by (rule resolve_index_chain)
  ultimately have "resolve host (nested_seq n v) (take ?m (replicate n (IndexStep (IntLit 0))))
                     (root_value RootContext (nested_seq n v)) = Inr (nested_seq (n - ?m) v)"
    using split by simp
  then show ?thesis
    using evaluate_beyond [of "replicate n (IndexStep (IntLit 0))" host "nested_seq n v" RootContext]
      assms by simp
qed

lemma evaluate_field_chain_within:
  assumes "\<forall>f\<in>set fs. is_public f" and "length fs \<le> MaxExecutionDepth"
  shows "evaluate host (Program RootContext (map FieldStep fs)) (nested_struct fs v) = Inr v"
  using evaluate_within [of "map FieldStep fs" host RootContext "nested_struct fs v"]
    resolve_field_chain [of fs host "nested_struct fs v" "[]" v] assms
  by simp

lemma evaluate_field_chain_beyond:
  assumes pub: "\<forall>f\<in>set fs. is_public f" and long: "MaxExecutionDepth < length fs"
  shows "evaluate host (Program RootContext (map FieldStep fs)) (nested_struct fs v)
           = Inl ErrMaxExecutionDepth"
proof -
  let ?m = MaxExecutionDepth
  let ?xs = "take ?m fs" and ?ys = "drop ?m fs"
  have pub': "\<forall>f\<in>set ?xs. is_public f" using pub by (auto dest: in_set_takeD)
  have "resolve host (nested_struct fs v) (map FieldStep ?xs) (nested_struct (?xs @ ?ys) v)
          = Inr (nested_struct ?ys v)"
    using resolve_field_chain [OF pub'] .
  then have "resolve host (nested_struct fs v) (take ?m (map FieldStep fs))
               (root_value RootContext (nested_struct fs v)) = Inr (nested_struct ?ys v)"
    by (simp add: take_map)
  then show ?thesis
    using evaluate_beyond [of "map FieldStep fs" host "nested_struct fs v" RootContext] long by simp
qed

text \<open>
  C1. Every Field, Index or Call step that succeeds has incremented the evaluation's
  depth counter by one, so a chain that succeeds has counted its length. A chain of at
  most \<open>MaxExecutionDepth\<close> steps evaluates to what its steps resolve to; a longer one
  never succeeds, and fails with \<^verbatim>\<open>ErrMaxExecutionDepth\<close> when its first
  \<open>MaxExecutionDepth\<close> steps resolve. So a chain of \<open>n\<close> index steps on \<open>n\<close> nested
  sequences, and a chain of public fields on structured values nested along them,
  succeeds up to the maximum and fails with the sentinel one step beyond it. The sentinel
  is no ordinary execution error.
\<close>

theorem depth_guard:
  "(\<forall>s st st'. exec_step host ctx s st = Inr st' \<longrightarrow> depth st' = depth st + 1)
   \<and> (\<forall>st st'. exec_steps host ctx ss st = Inr st' \<longrightarrow> depth st' = depth st + length ss)
   \<and> (length ss \<le> MaxExecutionDepth \<longrightarrow>
        evaluate host (Program r ss) ctx = resolve host ctx ss (root_value r ctx))
   \<and> (MaxExecutionDepth < length ss \<longrightarrow>
        (\<forall>x. evaluate host (Program r ss) ctx \<noteq> Inr x)
        \<and> (\<forall>w. resolve host ctx (take MaxExecutionDepth ss) (root_value r ctx) = Inr w \<longrightarrow>
               evaluate host (Program r ss) ctx = Inl ErrMaxExecutionDepth))
   \<and> (n \<le> MaxExecutionDepth \<longrightarrow>
        evaluate host (Program RootContext (replicate n (IndexStep (IntLit 0)))) (nested_seq n v)
          = Inr v)
   \<and> (n = MaxExecutionDepth + 1 \<longrightarrow>
        evaluate host (Program RootContext (replicate n (IndexStep (IntLit 0)))) (nested_seq n v)
          = Inl ErrMaxExecutionDepth)
   \<and> ((\<forall>f\<in>set fs. is_public f) \<and> length fs \<le> MaxExecutionDepth \<longrightarrow>
        evaluate host (Program RootContext (map FieldStep fs)) (nested_struct fs v) = Inr v)
   \<and> ((\<forall>f\<in>set fs. is_public f) \<and> length fs = MaxExecutionDepth + 1 \<longrightarrow>
        evaluate host (Program RootContext (map FieldStep fs)) (nested_struct fs v)
          = Inl ErrMaxExecutionDepth)
   \<and> (\<forall>f. ErrMaxExecutionDepth \<noteq> ExecutionError f)"
proof (intro conjI)
  show "\<forall>s st st'. exec_step host ctx s st = Inr st' \<longrightarrow> depth st' = depth st + 1"
    using exec_step_depth by simp
  show "\<forall>st st'. exec_steps host ctx ss st = Inr st' \<longrightarrow> depth st' = depth st + length ss"
    using exec_steps_depth by blast
  show "length ss \<le> MaxExecutionDepth \<longrightarrow>
        evaluate host (Program r ss) ctx = resolve host ctx ss (root_value r ctx)"
    using evaluate_within by blast
  show "MaxExecutionDepth < length ss \<longrightarrow>
        (\<forall>x. evaluate host (Program r ss) ctx \<noteq> Inr x)
        \<and> (\<forall>w. resolve host ctx (take MaxExecutionDepth ss) (root_value r ctx) = Inr w \<longrightarrow>
               evaluate host (Program r ss) ctx = Inl ErrMaxExecutionDepth)"
    using evaluate_too_long evaluate_beyond by blast
  show "n \<le> MaxExecutionDepth \<longrightarrow>
        evaluate host (Program RootContext (replicate n (IndexStep (IntLit 0)))) (nested_seq n v)
          = Inr v"
    using evaluate_index_chain_within by blast
  show "n = MaxExecutionDepth + 1 \<longrightarrow>
        evaluate host (Program RootContext (replicate n (IndexStep (IntLit 0)))) (nested_seq n v)
          = Inl ErrMaxExecutionDepth"
  proof
    assume "n = MaxExecutionDepth + 1"
    then have "MaxExecutionDepth < n" by simp
    then show "evaluate host (Program RootContext (replicate n (IndexStep (IntLit 0))))
                 (nested_seq n v) = Inl ErrMaxExecutionDepth"
      by (rule evaluate_index_chain_beyond)
  qed
  show "(\<forall>f\<in>set fs. is_public f) \<and> length fs \<le> MaxExecutionDepth \<longrightarrow>
        evaluate host (Program RootContext (map FieldStep fs)) (nested_struct fs v) = Inr v"
    using evaluate_field_chain_within by blast
  show "(\<forall>f\<in>set fs. is_public f) \<and> length fs = MaxExecutionDepth + 1 \<longrightarrow>
        evaluate host (Program RootContext (map FieldStep fs)) (nested_struct fs v)
          = Inl ErrMaxExecutionDepth"
  proof
    assume a: "(\<forall>f\<in>set fs. is_public f) \<and> length fs = MaxExecutionDepth + 1"
    then have "MaxExecutionDepth < length fs" by simp
    with a show "evaluate host (Program RootContext (map FieldStep fs)) (nested_struct fs v)
                   = Inl ErrMaxExecutionDepth"
      using evaluate_field_chain_beyond by blast
  qed
  show "\<forall>f. ErrMaxExecutionDepth \<noteq> ExecutionError f"
    by simp
qed


theorem depth_guard_witness:
  "evaluate (\<lambda>f args. Inr Absent)
      (Program RootContext (replicate 10 (IndexStep (IntLit 0))))
      (nested_seq 10 (SeqV TInt [IntV 33])) = Inr (SeqV TInt [IntV 33])
   \<and> evaluate (\<lambda>f args. Inr Absent)
      (Program RootContext (replicate 11 (IndexStep (IntLit 0))))
      (nested_seq 11 (IntV 33)) = Inl ErrMaxExecutionDepth
   \<and> evaluate (\<lambda>f args. Inr Absent)
      (Program RootContext (map FieldStep [''A'', ''B'', ''C'', ''D'', ''E'', ''F'', ''G'', ''H'', ''I'', ''J'']))
      (nested_struct [''A'', ''B'', ''C'', ''D'', ''E'', ''F'', ''G'', ''H'', ''I'', ''J'']
         (SeqV TInt [IntV 33]))
        = Inr (SeqV TInt [IntV 33])
   \<and> evaluate (\<lambda>f args. Inr Absent)
      (Program RootContext
         (map FieldStep [''A'', ''B'', ''C'', ''D'', ''E'', ''F'', ''G'', ''H'', ''I'', ''J'', ''K'']))
      (nested_struct [''A'', ''B'', ''C'', ''D'', ''E'', ''F'', ''G'', ''H'', ''I'', ''J'', ''K'']
         (IntV 33))
        = Inl ErrMaxExecutionDepth"
proof -
  let ?host = "\<lambda>(f::fid) (args::dyn list). (Inr Absent :: string + dyn)"
  let ?ten = "[''A'', ''B'', ''C'', ''D'', ''E'', ''F'', ''G'', ''H'', ''I'', ''J'']"
  let ?eleven = "[''A'', ''B'', ''C'', ''D'', ''E'', ''F'', ''G'', ''H'', ''I'', ''J'', ''K'']"
  note within = depth_guard [of ?host Absent "[]" RootContext 10 "SeqV TInt [IntV 33]" ?ten]
  note beyond = depth_guard [of ?host Absent "[]" RootContext 11 "IntV 33" ?eleven]
  have n10: "(10::nat) \<le> MaxExecutionDepth"
    by (simp add: MaxExecutionDepth_def)
  have n11: "(11::nat) = MaxExecutionDepth + 1"
    by (simp add: MaxExecutionDepth_def)
  have f10: "(\<forall>f\<in>set ?ten. is_public f) \<and> length ?ten \<le> MaxExecutionDepth"
    by (simp add: MaxExecutionDepth_def is_public_def)
  have f11: "(\<forall>f\<in>set ?eleven. is_public f) \<and> length ?eleven = MaxExecutionDepth + 1"
    by (simp add: MaxExecutionDepth_def is_public_def)
  note c5 = within [THEN conjunct2, THEN conjunct2, THEN conjunct2, THEN conjunct2,
      THEN conjunct1, THEN mp, OF n10]
  note c6 = beyond [THEN conjunct2, THEN conjunct2, THEN conjunct2, THEN conjunct2,
      THEN conjunct2, THEN conjunct1, THEN mp, OF n11]
  note c7 = within [THEN conjunct2, THEN conjunct2, THEN conjunct2, THEN conjunct2,
      THEN conjunct2, THEN conjunct2, THEN conjunct1, THEN mp, OF f10]
  note c8 = beyond [THEN conjunct2, THEN conjunct2, THEN conjunct2, THEN conjunct2,
      THEN conjunct2, THEN conjunct2, THEN conjunct2, THEN conjunct1, THEN mp, OF f11]
  show ?thesis
    by (intro conjI) (rule c5, rule c6, rule c7, rule c8)
qed


subsection \<open>The Index step\<close>

text \<open>Below the maximum depth an Index step is \<open>exec_index\<close> on the running value.\<close>

lemma exec_step_index:
  "depth st < MaxExecutionDepth \<Longrightarrow>
   exec_step host ctx (IndexStep lit) st =
     (case exec_index lit (current st) of
        Inl e \<Rightarrow> Inl e
      | Inr v \<Rightarrow> Inr \<lparr>current = v, depth = Suc (depth st)\<rparr>)"
  using exec_step_below_limit [of st host ctx "IndexStep lit"] by simp

text \<open>The cases of \<open>exec_index\<close> on the unwrapped value.\<close>

lemma exec_index_key_type:
  "unwrap False v = Inr (MapV kt vt es, r) \<Longrightarrow> \<not> assignable_to (literal_type lit) kt \<Longrightarrow>
   exec_index lit v = Inl (ExecutionError KeyTypeMismatch)"
  by (simp add: exec_index_def)

lemma exec_index_absent_key:
  "unwrap False v = Inr (MapV kt vt es, r) \<Longrightarrow> assignable_to (literal_type lit) kt \<Longrightarrow>
   literal_key lit \<notin> fst ` set es \<Longrightarrow> exec_index lit v = Inr Absent"
  by (simp add: exec_index_def map_of_eq_None_iff [THEN iffD2])

lemma exec_index_present_key:
  "unwrap False v = Inr (MapV kt vt es, r) \<Longrightarrow> assignable_to (literal_type lit) kt \<Longrightarrow>
   map_of es (literal_key lit) = Some x \<Longrightarrow> exec_index lit v = Inr x"
  by (simp add: exec_index_def)

lemma exec_index_out_of_range:
  "unwrap False v = Inr (SeqV t xs, r) \<Longrightarrow> i < 0 \<or> int (length xs) \<le> i \<Longrightarrow>
   exec_index (IntLit i) v = Inl (ExecutionError IndexOutOfRange)"
  by (auto simp: exec_index_def)

lemma exec_index_in_range:
  "unwrap False v = Inr (SeqV t xs, r) \<Longrightarrow> 0 \<le> i \<Longrightarrow> i < int (length xs) \<Longrightarrow>
   exec_index (IntLit i) v = Inr (xs ! nat i)"
  by (auto simp: exec_index_def)

lemma unwrap_Inl:
  "unwrap r v = Inl e \<Longrightarrow> e = ExecutionError NilDereference"
  by (induction r v rule: unwrap.induct) simp_all

lemma exec_index_nil:
  "unwrap False v = Inl e \<Longrightarrow> exec_index lit v = Inl (ExecutionError NilDereference)"
  using unwrap_Inl [of False v e] by (simp add: exec_index_def)

lemma exec_index_other:
  "unwrap False v = Inr (c, r) \<Longrightarrow> \<not> is_sequence c \<Longrightarrow> \<not> is_keyed c \<Longrightarrow>
   exec_index lit v = Inl (ExecutionError NotIndexable)"
  by (cases c) (simp_all add: exec_index_def)

text \<open>
  C2. For an Index step below the maximum depth, on the value the running value unwraps
  to: on a keyed container a literal whose type is not assignable to the declared key
  type yields the execution error \<open>KeyTypeMismatch\<close>, while a literal of an assignable
  type whose key is absent yields the absent value with no error; on a sequence an index
  out of range yields the execution error \<open>IndexOutOfRange\<close>; on a value that is neither
  a sequence nor a keyed container the step yields the execution error \<open>NotIndexable\<close>,
  and on one that does not unwrap, a nil, the execution error \<open>NilDereference\<close>.
\<close>

theorem index_step_results:
  assumes "depth st < MaxExecutionDepth"
  shows
    "(unwrap False (current st) = Inr (MapV kt vt es, r)
        \<and> \<not> assignable_to (literal_type lit) kt \<longrightarrow>
      exec_step host ctx (IndexStep lit) st = Inl (ExecutionError KeyTypeMismatch))
   \<and> (unwrap False (current st) = Inr (MapV kt vt es, r)
        \<and> assignable_to (literal_type lit) kt \<and> literal_key lit \<notin> fst ` set es \<longrightarrow>
      exec_step host ctx (IndexStep lit) st = Inr \<lparr>current = Absent, depth = depth st + 1\<rparr>)
   \<and> (unwrap False (current st) = Inr (SeqV t xs, r)
        \<and> (i < 0 \<or> int (length xs) \<le> i) \<longrightarrow>
      exec_step host ctx (IndexStep (IntLit i)) st = Inl (ExecutionError IndexOutOfRange))
   \<and> (unwrap False (current st) = Inr (c, r) \<and> \<not> is_sequence c \<and> \<not> is_keyed c \<longrightarrow>
      exec_step host ctx (IndexStep lit) st = Inl (ExecutionError NotIndexable))
   \<and> ((\<exists>e. unwrap False (current st) = Inl e) \<longrightarrow>
      exec_step host ctx (IndexStep lit) st = Inl (ExecutionError NilDereference))"
proof (intro conjI impI)
  assume "unwrap False (current st) = Inr (MapV kt vt es, r)
            \<and> \<not> assignable_to (literal_type lit) kt"
  then have "exec_index lit (current st) = Inl (ExecutionError KeyTypeMismatch)"
    using exec_index_key_type by blast
  then show "exec_step host ctx (IndexStep lit) st = Inl (ExecutionError KeyTypeMismatch)"
    by (simp only: exec_step_index [OF assms] sum.case)
next
  assume "unwrap False (current st) = Inr (MapV kt vt es, r)
            \<and> assignable_to (literal_type lit) kt \<and> literal_key lit \<notin> fst ` set es"
  then have "exec_index lit (current st) = Inr Absent"
    using exec_index_absent_key by blast
  then show "exec_step host ctx (IndexStep lit) st = Inr \<lparr>current = Absent, depth = depth st + 1\<rparr>"
    by (simp add: exec_step_index [OF assms] del: exec_step.simps)
next
  assume "unwrap False (current st) = Inr (SeqV t xs, r) \<and> (i < 0 \<or> int (length xs) \<le> i)"
  then have "exec_index (IntLit i) (current st) = Inl (ExecutionError IndexOutOfRange)"
    using exec_index_out_of_range by blast
  then show "exec_step host ctx (IndexStep (IntLit i)) st = Inl (ExecutionError IndexOutOfRange)"
    by (simp only: exec_step_index [OF assms] sum.case)
next
  assume "unwrap False (current st) = Inr (c, r) \<and> \<not> is_sequence c \<and> \<not> is_keyed c"
  then have "exec_index lit (current st) = Inl (ExecutionError NotIndexable)"
    using exec_index_other by blast
  then show "exec_step host ctx (IndexStep lit) st = Inl (ExecutionError NotIndexable)"
    by (simp only: exec_step_index [OF assms] sum.case)
next
  assume "\<exists>e. unwrap False (current st) = Inl e"
  then have "exec_index lit (current st) = Inl (ExecutionError NilDereference)"
    using exec_index_nil by blast
  then show "exec_step host ctx (IndexStep lit) st = Inl (ExecutionError NilDereference)"
    by (simp only: exec_step_index [OF assms] sum.case)
qed

theorem index_step_results_witness:
  "exec_step (\<lambda>f args. Inr Absent) Absent (IndexStep (StrLit ''One''))
       \<lparr>current = MapV TInt TString [(IntV 1, StrV ''One'')], depth = 1\<rparr>
     = Inl (ExecutionError KeyTypeMismatch)
   \<and> exec_step (\<lambda>f args. Inr Absent) Absent (IndexStep (StrLit ''i dont exist''))
       \<lparr>current = MapV TString TUint16 [], depth = 1\<rparr>
     = Inr \<lparr>current = Absent, depth = 1 + 1\<rparr>
   \<and> exec_step (\<lambda>f args. Inr Absent) Absent (IndexStep (IntLit 5))
       \<lparr>current = SeqV TInt [IntV 1, IntV 2, IntV 3], depth = 1\<rparr>
     = Inl (ExecutionError IndexOutOfRange)
   \<and> exec_step (\<lambda>f args. Inr Absent) Absent (IndexStep (IntLit 1))
       \<lparr>current = IntV 27, depth = 1\<rparr>
     = Inl (ExecutionError NotIndexable)"
proof -
  let ?host = "\<lambda>(f::fid) (args::dyn list). (Inr Absent :: string + dyn)"
  let ?m = "MapV TInt TString [(IntV 1, StrV ''One'')]"
  let ?e = "MapV TString TUint16 []"
  let ?s = "SeqV TInt [IntV 1, IntV 2, IntV 3]"
  have d: "depth \<lparr>current = x, depth = 1\<rparr> < MaxExecutionDepth" for x :: dyn
    by (simp add: MaxExecutionDepth_def)
  have h1: "unwrap False (current \<lparr>current = ?m, depth = 1\<rparr>) = Inr (?m, False)
              \<and> \<not> assignable_to (literal_type (StrLit ''One'')) TInt"
    by (simp add: assignable_to_def)
  have h2: "unwrap False (current \<lparr>current = ?e, depth = 1\<rparr>) = Inr (?e, False)
              \<and> assignable_to (literal_type (StrLit ''i dont exist'')) TString
              \<and> literal_key (StrLit ''i dont exist'') \<notin> fst ` set []"
    by (simp add: assignable_to_def)
  have h3: "unwrap False (current \<lparr>current = ?s, depth = 1\<rparr>) = Inr (?s, False)
              \<and> ((5::int) < 0 \<or> int (length [IntV 1, IntV 2, IntV 3]) \<le> 5)"
    by simp
  have h4: "unwrap False (current \<lparr>current = IntV 27, depth = 1\<rparr>) = Inr (IntV 27, False)
              \<and> \<not> is_sequence (IntV 27) \<and> \<not> is_keyed (IntV 27)"
    by simp
  note c1 = index_step_results [OF d, of ?m TInt TString "[(IntV 1, StrV ''One'')]" False
      "StrLit ''One''" ?host Absent, THEN conjunct1, THEN mp, OF h1]
  note c2 = index_step_results [OF d, of ?e TString TUint16 "[]" False
      "StrLit ''i dont exist''" ?host Absent, THEN conjunct2, THEN conjunct1, THEN mp, OF h2]
  note c3 = index_step_results [OF d, of ?s _ _ _ False _ ?host Absent TInt
      "[IntV 1, IntV 2, IntV 3]" 5, THEN conjunct2, THEN conjunct2, THEN conjunct1, THEN mp, OF h3]
  note c4 = index_step_results [OF d, of "IntV 27" _ _ _ False "IntLit 1" ?host Absent _ _ _
      "IntV 27", THEN conjunct2, THEN conjunct2, THEN conjunct2, THEN conjunct1, THEN mp, OF h4]
  from c1 c2 c3 c4 show ?thesis
    by (simp del: exec_step.simps)
qed

subsection \<open>The evaluator on cases of the test table\<close>

text \<open>
  Cases of \<^verbatim>\<open>TestBindingAccessor\<close> (\<^verbatim>\<open>binding-accessor_test.go\<close>), each with the program its
  expression stands for and the result the table expects.
\<close>

lemma test_context_value:
  "evaluate host (Program RootContext []) ctx = Inr ctx"
  by simp

lemma test_nil_value:
  "evaluate host (Program RootNil []) ctx = Inr Absent"
  by simp

lemma test_string_value:
  "evaluate host (Program (RootString ''test'') []) Absent = Inr (StrV ''test'')"
  by simp

lemma test_array_value:
  "evaluate host (Program RootContext [IndexStep (IntLit 2)]) (SeqV TInt [IntV 37, IntV 42, IntV 23])
     = Inr (IntV 23)"
  by (simp add: enter_simp MaxExecutionDepth_def exec_index_def)

lemma test_map_value:
  "evaluate host (Program RootContext [IndexStep (StrLit ''One'')])
     (MapV TString TString [(StrV ''One'', StrV ''Sqreen'')]) = Inr (StrV ''Sqreen'')"
  by (simp add: enter_simp MaxExecutionDepth_def exec_index_def assignable_to_def)

lemma test_pointer_field_traversal:
  "evaluate host (Program RootContext [FieldStep ''A'', FieldStep ''C''])
     (StructV ''ctx''
        [(''A'', PtrV (TStruct ''a'') (Some (StructV ''a'' [(''C'', StrV ''Sqreen'')] []))),
         (''B'', IntV 33)] [])
     = Inr (StrV ''Sqreen'')"
  by (simp add: enter_simp MaxExecutionDepth_def exec_field_def is_public_def)

lemma test_nil_pointer_field_traversal:
  "evaluate host (Program RootContext [FieldStep ''A'', FieldStep ''C''])
     (StructV ''ctx'' [(''A'', PtrV (TStruct ''a'') None), (''B'', IntV 33)] [])
     = Inl (ExecutionError NilDereference)"
  by (simp add: enter_simp MaxExecutionDepth_def exec_field_def is_public_def)

lemma test_private_field_access:
  "evaluate host (Program RootContext [FieldStep ''foo''])
     (StructV ''ctx'' [(''foo'', StrV ''bar'')] [])
     = Inl (ExecutionError (PrivateField ''foo''))"
  by (simp add: enter_simp MaxExecutionDepth_def exec_field_def is_public_def)

lemma test_method_on_reference:
  "evaluate (\<lambda>f args. if f = 2 then Inr (StrV ''Sqreen'') else Inr (IntV 33))
     (Program RootContext [FieldStep ''MyMethodField2''])
     (PtrV (TStruct ''contextWithMethods'')
        (Some (StructV ''contextWithMethods'' []
           [(''MyMethodField1'', ByValue, 1), (''MyMethodField2'', ByReference, 2)])))
     = Inr (StrV ''Sqreen'')"
  by (simp add: enter_simp MaxExecutionDepth_def exec_field_def)

lemma test_method_on_value:
  "evaluate (\<lambda>f args. if f = 2 then Inr (StrV ''Sqreen'') else Inr (IntV 33))
     (Program RootContext [FieldStep ''MyMethodField2''])
     (StructV ''contextWithMethods'' []
        [(''MyMethodField1'', ByValue, 1), (''MyMethodField2'', ByReference, 2)])
     = Inl (ExecutionError (UnknownField ''MyMethodField2''))"
  by (simp add: enter_simp MaxExecutionDepth_def exec_field_def)

lemma test_function_value:
  "evaluate (\<lambda>f args. case args of [a] \<Rightarrow> Inr a | _ \<Rightarrow> Inl ''arity'')
     (Program RootContext [FieldStep ''A'', CallStep [Program RootContext [FieldStep ''B'']]])
     (StructV ''ctx'' [(''A'', FuncV [TInt] TInt 0), (''B'', IntV 23)] [])
     = Inr (IntV 23)"
  by (simp add: enter_simp MaxExecutionDepth_def exec_field_def is_public_def invoke_def
        convert_arg_def)

lemma test_function_returning_an_error:
  "evaluate (\<lambda>f args. Inl ''error'')
     (Program RootContext [FieldStep ''A'', CallStep []])
     (StructV ''ctx'' [(''A'', FuncV [] TInt 0), (''B'', IntV 23)] [])
     = Inl (ExecutionError (CallableError ''error''))"
  by (simp add: enter_simp MaxExecutionDepth_def exec_field_def is_public_def invoke_def)

end
